theory Spec2Isabelle
  imports Main
begin

section \<open>Data model\<close>

text \<open>
  The module \<^verbatim>\<open>app/db/crud/schedule.py\<close> is a data-access layer over three tables.
  The table declarations (\<^verbatim>\<open>app.db.models\<close>) and the week-key function
  (\<^verbatim>\<open>app.utils.schedule.get_week_start\<close>) are not part of the sources at hand, so

  \<^item> the rows carry the columns the functions read and write;
  \<^item> \<open>get_week_start\<close> is a parameter \<open>ws\<close> of every function that calls it;
  \<^item> the values the storage layer supplies on an insert (the primary key, the column
    default of \<open>updated_at\<close>) are a sequence counter of the table and a parameter.

  A Python \<open>date\<close> is its three fields; a timestamp is an abstract clock reading.
\<close>

record pydate =
  year :: nat
  month :: nat
  day :: nat

type_synonym timestamp = nat

text \<open>
  A row of \<open>ScheduleCache\<close>. The type of \<open>group_id\<close> is left open: the cache functions
  annotate it \<open>str\<close>, the aggregator \<open>int\<close>, and nothing but equality is used on it.
  The primary key column \<open>id\<close> is written \<open>id'\<close> here.
\<close>

record 'g schedule_cache =
  id' :: nat
  group_id :: 'g
  week_start :: pydate
  data :: string
  updated_at :: "timestamp option"

text \<open>The table: its rows in the order a plain \<open>select\<close> returns them, and the key sequence.\<close>

record 'g cache_table =
  cache_rows :: "'g schedule_cache list"
  next_id :: nat

text \<open>A row of \<open>User\<close>; \<open>group_id\<close> is nullable (the lookup is typed \<open>Optional[int]\<close>).\<close>

record user =
  user_id :: nat
  telegram_id :: int
  user_group_id :: "int option"

text \<open>
  What \<open>get_cached_schedule\<close> can hand back: Python values are dynamically typed, and the
  function's annotation (\<open>Optional[str]\<close>) and its \<open>return\<close> statement name different
  kinds of value.
\<close>

datatype 'g pyval = PyNone | PyStr string | PyRow "'g schedule_cache"

section \<open>Schedule cache store\<close>

text \<open>
  \<^verbatim>\<open>select(ScheduleCache).where(group_id == g).where(week_start == w)\<close> followed by
  \<^verbatim>\<open>.scalars().first()\<close>: the first matching row, or \<open>None\<close>.
\<close>

definition select_first :: "'g \<Rightarrow> pydate \<Rightarrow> 'g schedule_cache list \<Rightarrow> 'g schedule_cache option" where
  "select_first g w rows = find (\<lambda>r. group_id r = g \<and> week_start r = w) rows"

definition get_cached_schedule ::
  "(pydate \<Rightarrow> pydate) \<Rightarrow> 'g cache_table \<Rightarrow> 'g \<Rightarrow> pydate \<Rightarrow> 'g pyval" where
  "get_cached_schedule ws db g target_date =
     (let w = ws target_date in
      case select_first g w (cache_rows db) of
        None \<Rightarrow> PyNone
      | Some cache \<Rightarrow> PyRow cache)"

text \<open>
  \<^verbatim>\<open>update(ScheduleCache).where(ScheduleCache.id == i).values(data=d, updated_at=now)\<close>:
  every row whose key is \<open>i\<close> gets the two columns rewritten.
\<close>

definition update_by_id ::
  "nat \<Rightarrow> string \<Rightarrow> timestamp \<Rightarrow> 'g schedule_cache list \<Rightarrow> 'g schedule_cache list" where
  "update_by_id i d now rows =
     map (\<lambda>r. if id' r = i then r\<lparr>data := d, updated_at := Some now\<rparr> else r) rows"

text \<open>
  \<open>save_schedule_to_cache\<close>. \<open>now\<close> is the reading of \<open>datetime.utcnow()\<close>;
  \<open>dflt\<close> is what the storage layer puts in \<open>updated_at\<close> of a row inserted without it.
\<close>

definition save_schedule_to_cache ::
  "(pydate \<Rightarrow> pydate) \<Rightarrow> timestamp \<Rightarrow> timestamp option \<Rightarrow> 'g cache_table \<Rightarrow> 'g \<Rightarrow> pydate \<Rightarrow> string
     \<Rightarrow> 'g cache_table" where
  "save_schedule_to_cache ws now dflt db g target_date d =
     (let w = ws target_date in
      case select_first g w (cache_rows db) of
        Some existing \<Rightarrow>
          db\<lparr>cache_rows := update_by_id (id' existing) d now (cache_rows db)\<rparr>
      | None \<Rightarrow>
          db\<lparr>cache_rows := cache_rows db @
                 [\<lparr>id' = next_id db, group_id = g, week_start = w, data = d, updated_at = dflt\<rparr>],
             next_id := Suc (next_id db)\<rparr>)"

text \<open>The rows stored under a key, the invariant of the table, and the primary-key discipline.\<close>

definition rows_for :: "'g \<Rightarrow> pydate \<Rightarrow> 'g cache_table \<Rightarrow> 'g schedule_cache list" where
  "rows_for g w db = filter (\<lambda>r. group_id r = g \<and> week_start r = w) (cache_rows db)"

definition unique_keys :: "'g cache_table \<Rightarrow> bool" where
  "unique_keys db = distinct (map (\<lambda>r. (group_id r, week_start r)) (cache_rows db))"

definition primary_key_ok :: "'g cache_table \<Rightarrow> bool" where
  "primary_key_ok db =
     (distinct (map id' (cache_rows db)) \<and> list_all (\<lambda>r. id' r < next_id db) (cache_rows db))"

section \<open>User directory lookup\<close>

text \<open>
  \<^verbatim>\<open>select(User.group_id).where(User.telegram_id == t)\<close> followed by \<^verbatim>\<open>.scalar()\<close>:
  the first column of the first row, \<open>None\<close> when there is no row. The function then
  returns \<open>None\<close> when that value is \<open>None\<close>, and the value otherwise.
\<close>

definition scalar_group_id :: "user list \<Rightarrow> int \<Rightarrow> int option" where
  "scalar_group_id users t =
     (case find (\<lambda>u. telegram_id u = t) users of
        None \<Rightarrow> None
      | Some u \<Rightarrow> user_group_id u)"

definition get_user_group_id :: "user list \<Rightarrow> int \<Rightarrow> int option" where
  "get_user_group_id users t =
     (let group_id = scalar_group_id users t in
      if group_id = None then None else group_id)"

section \<open>Concrete inputs for the cache store\<close>

text \<open>
  An instance of the parameter \<open>ws\<close>, used where the functions are run on concrete dates:
  the Monday-based week start for the dates 11 to 24 March 2024 (11 March 2024 is a
  Monday), and the date itself everywhere else.
\<close>

definition week_start_march_2024 :: "pydate \<Rightarrow> pydate" where
  "week_start_march_2024 d =
     (if year d = 2024 \<and> month d = 3 \<and> 11 \<le> day d \<and> day d \<le> 17 then d\<lparr>day := 11\<rparr>
      else if year d = 2024 \<and> month d = 3 \<and> 18 \<le> day d \<and> day d \<le> 24 then d\<lparr>day := 18\<rparr>
      else d)"

text \<open>A table of three rows with distinct primary keys and distinct (group, week) keys.\<close>

definition demo_table :: "string cache_table" where
  "demo_table =
     \<lparr>cache_rows =
        [\<lparr>id' = 1, group_id = ''G1'', week_start = \<lparr>year = 2024, month = 3, day = 4\<rparr>,
          data = ''[]'', updated_at = Some 100\<rparr>,
         \<lparr>id' = 2, group_id = ''G1'', week_start = \<lparr>year = 2024, month = 3, day = 11\<rparr>,
          data = ''[]'', updated_at = Some 200\<rparr>,
         \<lparr>id' = 3, group_id = ''G2'', week_start = \<lparr>year = 2024, month = 3, day = 11\<rparr>,
          data = ''[]'', updated_at = Some 300\<rparr>],
      next_id = 4\<rparr>"

section \<open>Properties of the user directory lookup\<close>

text \<open>
  C7. For every \<open>telegram_id\<close> with no matching \<open>User\<close> record, \<open>get_user_group_id\<close>
  returns the absent value \<open>None\<close>; the result is an ordinary value (the function has no
  failing branch of its own).
\<close>

theorem get_user_group_id_unknown:
  assumes "list_all (\<lambda>u. telegram_id u \<noteq> t) users"
  shows "get_user_group_id users t = None"
proof -
  have "find (\<lambda>u. telegram_id u = t) users = None"
    using assms by (induction users) simp_all
  then show ?thesis
    by (simp add: get_user_group_id_def scalar_group_id_def)
qed

theorem get_user_group_id_unknown_witness:
  "get_user_group_id [\<lparr>user_id = 1, telegram_id = 1001, user_group_id = Some 7\<rparr>] 2002 = None"
  using get_user_group_id_unknown
    [of 2002 "[\<lparr>user_id = 1, telegram_id = 1001, user_group_id = Some 7\<rparr>]"]
  by simp

text \<open>
  C9. \<open>get_user_group_id\<close> returns \<open>None\<close> both when no \<open>User\<close> row has the given
  \<open>telegram_id\<close> and when the row found for it has a null \<open>group_id\<close>; these are the only
  two situations in which it returns \<open>None\<close>, so the result does not tell them apart.
\<close>

theorem get_user_group_id_none_iff:
  "get_user_group_id users t = None \<longleftrightarrow>
     (find (\<lambda>u. telegram_id u = t) users = None \<or>
      (\<exists>u. find (\<lambda>u. telegram_id u = t) users = Some u \<and> user_group_id u = None))"
  by (cases "find (\<lambda>u. telegram_id u = t) users")
     (simp_all add: get_user_group_id_def scalar_group_id_def)

theorem get_user_group_id_none_iff_witness:
  "get_user_group_id [] 1001 = None \<and>
   get_user_group_id [\<lparr>user_id = 1, telegram_id = 1001, user_group_id = None\<rparr>] 1001 = None \<and>
   get_user_group_id [\<lparr>user_id = 1, telegram_id = 1001, user_group_id = Some 7\<rparr>] 1001 = Some 7"
  using get_user_group_id_none_iff [of "[]" 1001]
    get_user_group_id_none_iff [of "[\<lparr>user_id = 1, telegram_id = 1001, user_group_id = None\<rparr>]" 1001]
  by (simp add: get_user_group_id_def scalar_group_id_def)

section \<open>Properties of the schedule cache store\<close>

lemma select_first_None_iff:
  "select_first g w rows = None \<longleftrightarrow> filter (\<lambda>r. group_id r = g \<and> week_start r = w) rows = []"
  unfolding select_first_def by (induction rows) simp_all

lemma select_first_Some_split:
  assumes "select_first g w rows = Some ex"
  shows "\<exists>pre post. rows = pre @ ex # post \<and> group_id ex = g \<and> week_start ex = w \<and>
           list_all (\<lambda>r. \<not> (group_id r = g \<and> week_start r = w)) pre"
  using assms unfolding select_first_def
proof (induction rows)
  case Nil
  then show ?case by simp
next
  case (Cons r rows)
  show ?case
  proof (cases "group_id r = g \<and> week_start r = w")
    case True
    with Cons.prems have "r = ex" by simp
    with True have "r # rows = [] @ ex # rows \<and> group_id ex = g \<and> week_start ex = w \<and>
        list_all (\<lambda>r. \<not> (group_id r = g \<and> week_start r = w)) []"
      by simp
    then show ?thesis by blast
  next
    case False
    with Cons.prems have "find (\<lambda>r. group_id r = g \<and> week_start r = w) rows = Some ex"
      by auto
    from Cons.IH [OF this] obtain pre post where
      "rows = pre @ ex # post" "group_id ex = g" "week_start ex = w"
      "list_all (\<lambda>r. \<not> (group_id r = g \<and> week_start r = w)) pre"
      by blast
    with False have "r # rows = (r # pre) @ ex # post \<and> group_id ex = g \<and> week_start ex = w \<and>
        list_all (\<lambda>r. \<not> (group_id r = g \<and> week_start r = w)) (r # pre)"
      by simp
    then show ?thesis by blast
  qed
qed

lemma update_by_id_keys:
  "map (\<lambda>r. (group_id r, week_start r)) (update_by_id i d now rows) =
   map (\<lambda>r. (group_id r, week_start r)) rows"
  unfolding update_by_id_def by (induction rows) simp_all

lemma update_by_id_ids: "map id' (update_by_id i d now rows) = map id' rows"
  unfolding update_by_id_def by (induction rows) simp_all

lemma update_by_id_length: "length (update_by_id i d now rows) = length rows"
  unfolding update_by_id_def by simp

lemma update_by_id_other:
  "list_all (\<lambda>r. id' r \<noteq> i) rows \<Longrightarrow> update_by_id i d now rows = rows"
  unfolding update_by_id_def by (induction rows) simp_all

lemma update_by_id_split:
  assumes "distinct (map id' (pre @ ex # post))"
  shows "update_by_id (id' ex) d now (pre @ ex # post) =
         pre @ ex\<lparr>data := d, updated_at := Some now\<rparr> # post"
proof -
  have "list_all (\<lambda>r. id' r \<noteq> id' ex) pre" "list_all (\<lambda>r. id' r \<noteq> id' ex) post"
    using assms by (auto simp: list_all_iff image_iff)
  then have "update_by_id (id' ex) d now pre = pre" "update_by_id (id' ex) d now post = post"
    by (simp_all add: update_by_id_other)
  then show ?thesis
    by (simp add: update_by_id_def)
qed

lemma filter_key_update_by_id:
  "map data (filter (\<lambda>r. group_id r = g \<and> week_start r = w) (update_by_id i d now rows)) =
   map (\<lambda>r. if id' r = i then d else data r) (filter (\<lambda>r. group_id r = g \<and> week_start r = w) rows)"
  unfolding update_by_id_def by (induction rows) simp_all

lemma unique_keys_filter_le1:
  "distinct (map (\<lambda>r. (group_id r, week_start r)) rows) \<Longrightarrow>
   length (filter (\<lambda>r. group_id r = g \<and> week_start r = w) rows) \<le> 1"
proof (induction rows)
  case Nil
  then show ?case by simp
next
  case (Cons r rows)
  show ?case
  proof (cases "group_id r = g \<and> week_start r = w")
    case True
    with Cons.prems have "(g, w) \<notin> set (map (\<lambda>r. (group_id r, week_start r)) rows)"
      by auto
    then have "filter (\<lambda>r. group_id r = g \<and> week_start r = w) rows = []"
      by (auto simp: filter_empty_conv)
    with True show ?thesis by simp
  next
    case False
    with Cons show ?thesis by auto
  qed
qed

lemma select_first_split_eq:
  assumes "list_all (\<lambda>r. \<not> (group_id r = g \<and> week_start r = w)) pre"
    and "group_id ex = g" and "week_start ex = w"
  shows "select_first g w (pre @ ex # post) = Some ex"
  using assms unfolding select_first_def by (induction pre) auto

lemma select_first_append_new:
  assumes "select_first g w rows = None" and "group_id new = g" and "week_start new = w"
  shows "select_first g w (rows @ [new]) = Some new"
  using assms unfolding select_first_def by (induction rows) (auto split: if_splits)

lemma select_first_filter:
  assumes "select_first g w rows = Some ex"
  shows "\<exists>rest. filter (\<lambda>r. group_id r = g \<and> week_start r = w) rows = ex # rest"
proof -
  from select_first_Some_split [OF assms] obtain pre post where
    s: "rows = pre @ ex # post" "group_id ex = g" "week_start ex = w"
    and p: "list_all (\<lambda>r. \<not> (group_id r = g \<and> week_start r = w)) pre"
    by blast
  from p have "filter (\<lambda>r. group_id r = g \<and> week_start r = w) pre = []"
    by (simp add: list_all_iff filter_empty_conv)
  with s show ?thesis by simp
qed

lemma save_existing:
  assumes "select_first g (ws d) (cache_rows db) = Some ex"
  shows "save_schedule_to_cache ws now dflt db g d x =
         db\<lparr>cache_rows := update_by_id (id' ex) x now (cache_rows db)\<rparr>"
  using assms by (simp add: save_schedule_to_cache_def)

lemma save_missing:
  assumes "select_first g (ws d) (cache_rows db) = None"
  shows "save_schedule_to_cache ws now dflt db g d x =
         db\<lparr>cache_rows := cache_rows db @
               [\<lparr>id' = next_id db, group_id = g, week_start = ws d, data = x, updated_at = dflt\<rparr>],
            next_id := Suc (next_id db)\<rparr>"
  using assms by (simp add: save_schedule_to_cache_def)

lemma save_unique_keys:
  assumes "unique_keys db"
  shows "unique_keys (save_schedule_to_cache ws now dflt db g d x)"
proof (cases "select_first g (ws d) (cache_rows db)")
  case None
  then have "filter (\<lambda>r. group_id r = g \<and> week_start r = ws d) (cache_rows db) = []"
    by (simp add: select_first_None_iff)
  then have "(g, ws d) \<notin> set (map (\<lambda>r. (group_id r, week_start r)) (cache_rows db))"
    by (auto simp: filter_empty_conv)
  with assms show ?thesis
    by (simp add: save_missing [of g ws d db, OF None] unique_keys_def)
next
  case (Some ex)
  with assms show ?thesis
    by (simp add: save_existing [of g ws d db ex, OF Some] unique_keys_def update_by_id_keys)
qed

lemma save_rows_for_data:
  assumes "unique_keys db"
  shows "map data (rows_for g (ws d) (save_schedule_to_cache ws now dflt db g d x)) = [x]"
proof (cases "select_first g (ws d) (cache_rows db)")
  case None
  then have "filter (\<lambda>r. group_id r = g \<and> week_start r = ws d) (cache_rows db) = []"
    by (simp add: select_first_None_iff)
  then show ?thesis
    by (simp add: save_missing [of g ws d db, OF None] rows_for_def)
next
  case (Some ex)
  from select_first_filter [OF Some] obtain rest where
    f: "filter (\<lambda>r. group_id r = g \<and> week_start r = ws d) (cache_rows db) = ex # rest"
    by blast
  have "length (filter (\<lambda>r. group_id r = g \<and> week_start r = ws d) (cache_rows db)) \<le> 1"
    using assms unfolding unique_keys_def by (rule unique_keys_filter_le1)
  with f have "rest = []" by simp
  with f show ?thesis
    by (simp add: save_existing [of g ws d db ex, OF Some] rows_for_def filter_key_update_by_id)
qed

lemma save_existing_length:
  assumes "rows_for g (ws d) db \<noteq> []"
  shows "length (cache_rows (save_schedule_to_cache ws now dflt db g d x)) = length (cache_rows db)"
proof (cases "select_first g (ws d) (cache_rows db)")
  case None
  with assms show ?thesis by (simp add: select_first_None_iff rows_for_def)
next
  case (Some ex)
  show ?thesis by (simp add: save_existing [of g ws d db ex, OF Some] update_by_id_length)
qed

lemma save_primary_key_ok:
  assumes "primary_key_ok db"
  shows "primary_key_ok (save_schedule_to_cache ws now dflt db g d x)"
proof (cases "select_first g (ws d) (cache_rows db)")
  case None
  from assms have "next_id db \<notin> set (map id' (cache_rows db))"
    by (auto simp: primary_key_ok_def list_all_iff)
  with assms show ?thesis
    by (auto simp: save_missing [of g ws d db, OF None] primary_key_ok_def list_all_iff)
next
  case (Some ex)
  have "list_all (\<lambda>r. id' r < n) (update_by_id i x now rows) = list_all (\<lambda>r. id' r < n) rows"
    for i n and rows :: "'a schedule_cache list"
    unfolding update_by_id_def by (induction rows) simp_all
  with assms show ?thesis
    by (simp add: save_existing [of g ws d db ex, OF Some] primary_key_ok_def update_by_id_ids)
qed

text \<open>
  Write then read, for every table whose \<open>id\<close> column is a primary key: the read finds a
  row under the key, and that row holds the payload just written.
\<close>

lemma save_then_get:
  assumes "primary_key_ok db"
  shows "\<exists>r. get_cached_schedule ws (save_schedule_to_cache ws now dflt db g d x) g d = PyRow r \<and>
             data r = x \<and> group_id r = g \<and> week_start r = ws d"
proof (cases "select_first g (ws d) (cache_rows db)")
  case None
  show ?thesis
    by (simp add: save_missing [of g ws d db, OF None] get_cached_schedule_def select_first_append_new [OF None])
next
  case (Some ex)
  from select_first_Some_split [OF Some] obtain pre post where
    s: "cache_rows db = pre @ ex # post" "group_id ex = g" "week_start ex = ws d"
    and p: "list_all (\<lambda>r. \<not> (group_id r = g \<and> week_start r = ws d)) pre"
    by blast
  from assms s have "distinct (map id' (pre @ ex # post))"
    by (simp add: primary_key_ok_def)
  then have u: "update_by_id (id' ex) x now (cache_rows db) =
      pre @ ex\<lparr>data := x, updated_at := Some now\<rparr> # post"
    using s by (simp add: update_by_id_split)
  have "select_first g (ws d) (pre @ ex\<lparr>data := x, updated_at := Some now\<rparr> # post) =
      Some (ex\<lparr>data := x, updated_at := Some now\<rparr>)"
    using p s by (intro select_first_split_eq) simp_all
  with u s show ?thesis
    by (simp add: save_existing [of g ws d db ex, OF Some] get_cached_schedule_def)
qed

text \<open>
  What the read operation returns, for every table: \<open>None\<close> when no row has the key,
  and otherwise the first row with the key (the row, not its \<open>data\<close> column).
\<close>

lemma get_cached_schedule_result:
  "get_cached_schedule ws db g d =
     (case filter (\<lambda>r. group_id r = g \<and> week_start r = ws d) (cache_rows db) of
        [] \<Rightarrow> PyNone
      | r # _ \<Rightarrow> PyRow r)"
proof (cases "select_first g (ws d) (cache_rows db)")
  case None
  then have "filter (\<lambda>r. group_id r = g \<and> week_start r = ws d) (cache_rows db) = []"
    by (simp add: select_first_None_iff)
  with None show ?thesis
    by (simp add: get_cached_schedule_def)
next
  case (Some ex)
  from select_first_filter [OF Some] obtain rest where
    "filter (\<lambda>r. group_id r = g \<and> week_start r = ws d) (cache_rows db) = ex # rest"
    by blast
  with Some show ?thesis
    by (simp add: get_cached_schedule_def)
qed

text \<open>
  C1. The claim is that \<open>get_cached_schedule\<close> derives the week start, looks up the row
  for (group, week start) and returns the stored payload string, or \<open>None\<close> when there is
  no row. The function is annotated \<open>Optional[str]\<close>, but its hit branch is
  \<^verbatim>\<open>return cache\<close>: on the table below, reading group \<open>G1\<close> on 15 March 2024 yields
  the row with primary key 2, which is not the payload string \<open>[]\<close> stored in it.
\<close>

theorem get_cached_schedule_hands_back_row:
  "get_cached_schedule week_start_march_2024 demo_table ''G1'' \<lparr>year = 2024, month = 3, day = 15\<rparr> =
     PyRow \<lparr>id' = 2, group_id = ''G1'', week_start = \<lparr>year = 2024, month = 3, day = 11\<rparr>,
            data = ''[]'', updated_at = Some 200\<rparr> \<and>
   get_cached_schedule week_start_march_2024 demo_table ''G1'' \<lparr>year = 2024, month = 3, day = 15\<rparr> \<noteq>
     PyStr ''[]''"
  by (simp add: get_cached_schedule_def select_first_def demo_table_def week_start_march_2024_def)

text \<open>
  C2. The claim is that a \<open>save_schedule_to_cache\<close> followed by a
  \<open>get_cached_schedule\<close> for the same group and date returns exactly the payload just
  written. On the code the read returns the row that now holds the payload (see
  \<open>save_then_get\<close> above for every table), not the payload: after writing \<open>[1]\<close> for
  group \<open>G1\<close> on 15 March 2024 the read yields the row with primary key 2.
\<close>

theorem save_then_get_hands_back_row:
  "get_cached_schedule week_start_march_2024
     (save_schedule_to_cache week_start_march_2024 500 None demo_table ''G1''
        \<lparr>year = 2024, month = 3, day = 15\<rparr> ''[1]'')
     ''G1'' \<lparr>year = 2024, month = 3, day = 15\<rparr> =
     PyRow \<lparr>id' = 2, group_id = ''G1'', week_start = \<lparr>year = 2024, month = 3, day = 11\<rparr>,
            data = ''[1]'', updated_at = Some 500\<rparr> \<and>
   get_cached_schedule week_start_march_2024
     (save_schedule_to_cache week_start_march_2024 500 None demo_table ''G1''
        \<lparr>year = 2024, month = 3, day = 15\<rparr> ''[1]'')
     ''G1'' \<lparr>year = 2024, month = 3, day = 15\<rparr> \<noteq> PyStr ''[1]''"
  by (simp add: get_cached_schedule_def save_schedule_to_cache_def update_by_id_def
      select_first_def demo_table_def week_start_march_2024_def Let_def)

text \<open>
  C3. Starting from any table with at most one row per (group, week start), a
  \<open>save_schedule_to_cache\<close> keeps that invariant and leaves exactly one row under the
  written key, holding the written payload; a second write for the same group and week
  keeps the invariant too, adds no row, and leaves exactly one row under the key, now
  holding the second payload.
\<close>

theorem save_schedule_to_cache_one_row_per_key:
  fixes db :: "'g cache_table" and ws :: "pydate \<Rightarrow> pydate" and g :: 'g
    and d1 d2 :: pydate and x1 x2 :: string and now1 now2 :: timestamp
    and dflt :: "timestamp option"
  assumes "unique_keys db" and "ws d2 = ws d1"
  defines "db1 \<equiv> save_schedule_to_cache ws now1 dflt db g d1 x1"
  defines "db2 \<equiv> save_schedule_to_cache ws now2 dflt db1 g d2 x2"
  shows "unique_keys db1 \<and> map data (rows_for g (ws d1) db1) = [x1] \<and>
         unique_keys db2 \<and> map data (rows_for g (ws d1) db2) = [x2] \<and>
         length (cache_rows db2) = length (cache_rows db1)"
proof -
  have u1: "unique_keys db1"
    unfolding db1_def using assms(1) by (rule save_unique_keys)
  have r1: "map data (rows_for g (ws d1) db1) = [x1]"
    unfolding db1_def using assms(1) by (rule save_rows_for_data)
  have u2: "unique_keys db2"
    unfolding db2_def using u1 by (rule save_unique_keys)
  have "map data (rows_for g (ws d2) db2) = [x2]"
    unfolding db2_def using u1 by (rule save_rows_for_data)
  then have r2: "map data (rows_for g (ws d1) db2) = [x2]"
    using assms(2) by simp
  from r1 have "rows_for g (ws d2) db1 \<noteq> []"
    using assms(2) by auto
  then have l: "length (cache_rows db2) = length (cache_rows db1)"
    unfolding db2_def by (rule save_existing_length)
  from u1 r1 u2 r2 l show ?thesis by simp
qed

theorem save_schedule_to_cache_one_row_per_key_witness:
  "unique_keys demo_table \<and>
   week_start_march_2024 \<lparr>year = 2024, month = 3, day = 22\<rparr> =
     week_start_march_2024 \<lparr>year = 2024, month = 3, day = 19\<rparr> \<and>
   map data (rows_for ''G1'' \<lparr>year = 2024, month = 3, day = 18\<rparr>
     (save_schedule_to_cache week_start_march_2024 600 None
        (save_schedule_to_cache week_start_march_2024 500 None demo_table ''G1''
           \<lparr>year = 2024, month = 3, day = 19\<rparr> ''[1]'')
        ''G1'' \<lparr>year = 2024, month = 3, day = 22\<rparr> ''[2]'')) = [''[2]''] \<and>
   length (cache_rows
     (save_schedule_to_cache week_start_march_2024 600 None
        (save_schedule_to_cache week_start_march_2024 500 None demo_table ''G1''
           \<lparr>year = 2024, month = 3, day = 19\<rparr> ''[1]'')
        ''G1'' \<lparr>year = 2024, month = 3, day = 22\<rparr> ''[2]'')) = 4"
proof -
  have u: "unique_keys demo_table"
    by (simp add: unique_keys_def demo_table_def)
  have w: "week_start_march_2024 \<lparr>year = 2024, month = 3, day = 22\<rparr> =
      week_start_march_2024 \<lparr>year = 2024, month = 3, day = 19\<rparr>"
    by (simp add: week_start_march_2024_def)
  have l: "length (cache_rows (save_schedule_to_cache week_start_march_2024 500 None demo_table ''G1''
           \<lparr>year = 2024, month = 3, day = 19\<rparr> ''[1]'')) = 4"
    by (simp add: save_schedule_to_cache_def select_first_def demo_table_def
        week_start_march_2024_def Let_def)
  have k: "week_start_march_2024 \<lparr>year = 2024, month = 3, day = 19\<rparr> =
      \<lparr>year = 2024, month = 3, day = 18\<rparr>"
    by (simp add: week_start_march_2024_def)
  show ?thesis
    using save_schedule_to_cache_one_row_per_key
        [where db = demo_table and ws = week_start_march_2024
           and ?d1.0 = "\<lparr>year = 2024, month = 3, day = 19\<rparr>"
           and ?d2.0 = "\<lparr>year = 2024, month = 3, day = 22\<rparr>"
           and ?now1.0 = 500 and ?now2.0 = 600 and dflt = None and g = "''G1''"
           and ?x1.0 = "''[1]''" and ?x2.0 = "''[2]''", OF u w]
      u w l k
    by simp
qed

text \<open>
  C4. \<open>save_schedule_to_cache\<close> derives the week start from the date. When the table
  (with \<open>id\<close> a primary key) has a row for (group, week start), the first such row gets
  the new \<open>data\<close> and \<open>updated_at = now\<close> and keeps \<open>id\<close>, \<open>group_id\<close> and
  \<open>week_start\<close>; every other row and the key sequence stay as they were. When it has
  none, one row with that group, week start and payload is appended, and no existing row
  changes.
\<close>

theorem save_schedule_to_cache_frame:
  fixes db :: "'g cache_table" and ws :: "pydate \<Rightarrow> pydate" and g :: 'g and d :: pydate
    and x :: string and now :: timestamp and dflt :: "timestamp option"
  assumes "primary_key_ok db"
  defines "db' \<equiv> save_schedule_to_cache ws now dflt db g d x"
  shows "(\<forall>pre ex post.
            cache_rows db = pre @ ex # post \<and> group_id ex = g \<and> week_start ex = ws d \<and>
            list_all (\<lambda>r. \<not> (group_id r = g \<and> week_start r = ws d)) pre \<longrightarrow>
            db' = db\<lparr>cache_rows := pre @ ex\<lparr>data := x, updated_at := Some now\<rparr> # post\<rparr>) \<and>
         (list_all (\<lambda>r. \<not> (group_id r = g \<and> week_start r = ws d)) (cache_rows db) \<longrightarrow>
            db' = db\<lparr>cache_rows := cache_rows db @
                      [\<lparr>id' = next_id db, group_id = g, week_start = ws d, data = x,
                        updated_at = dflt\<rparr>],
                    next_id := Suc (next_id db)\<rparr>)"
proof (intro conjI allI impI)
  fix pre ex post
  assume a: "cache_rows db = pre @ ex # post \<and> group_id ex = g \<and> week_start ex = ws d \<and>
            list_all (\<lambda>r. \<not> (group_id r = g \<and> week_start r = ws d)) pre"
  then have sel: "select_first g (ws d) (cache_rows db) = Some ex"
    by (simp add: select_first_split_eq)
  from assms(1) a have "distinct (map id' (pre @ ex # post))"
    by (simp add: primary_key_ok_def)
  then have "update_by_id (id' ex) x now (pre @ ex # post) =
      pre @ ex\<lparr>data := x, updated_at := Some now\<rparr> # post"
    by (rule update_by_id_split)
  with a show "db' = db\<lparr>cache_rows := pre @ ex\<lparr>data := x, updated_at := Some now\<rparr> # post\<rparr>"
    unfolding db'_def by (simp add: save_existing [of g ws d db ex, OF sel])
next
  assume "list_all (\<lambda>r. \<not> (group_id r = g \<and> week_start r = ws d)) (cache_rows db)"
  then have "filter (\<lambda>r. group_id r = g \<and> week_start r = ws d) (cache_rows db) = []"
    by (simp add: list_all_iff filter_empty_conv)
  then have sel: "select_first g (ws d) (cache_rows db) = None"
    by (simp add: select_first_None_iff)
  show "db' = db\<lparr>cache_rows := cache_rows db @
                      [\<lparr>id' = next_id db, group_id = g, week_start = ws d, data = x,
                        updated_at = dflt\<rparr>],
                    next_id := Suc (next_id db)\<rparr>"
    unfolding db'_def by (rule save_missing [of g ws d db, OF sel])
qed

theorem save_schedule_to_cache_frame_witness:
  "primary_key_ok demo_table \<and>
   save_schedule_to_cache week_start_march_2024 500 None demo_table ''G1''
     \<lparr>year = 2024, month = 3, day = 15\<rparr> ''[1]'' =
   \<lparr>cache_rows =
      [\<lparr>id' = 1, group_id = ''G1'', week_start = \<lparr>year = 2024, month = 3, day = 4\<rparr>,
        data = ''[]'', updated_at = Some 100\<rparr>,
       \<lparr>id' = 2, group_id = ''G1'', week_start = \<lparr>year = 2024, month = 3, day = 11\<rparr>,
        data = ''[1]'', updated_at = Some 500\<rparr>,
       \<lparr>id' = 3, group_id = ''G2'', week_start = \<lparr>year = 2024, month = 3, day = 11\<rparr>,
        data = ''[]'', updated_at = Some 300\<rparr>],
    next_id = 4\<rparr> \<and>
   save_schedule_to_cache week_start_march_2024 500 None demo_table ''G2''
     \<lparr>year = 2024, month = 3, day = 19\<rparr> ''[2]'' =
   \<lparr>cache_rows = cache_rows demo_table @
      [\<lparr>id' = 4, group_id = ''G2'', week_start = \<lparr>year = 2024, month = 3, day = 18\<rparr>,
        data = ''[2]'', updated_at = None\<rparr>],
    next_id = 5\<rparr>"
proof -
  have p: "primary_key_ok demo_table"
    by (simp add: primary_key_ok_def demo_table_def)
  have k1: "week_start_march_2024 \<lparr>year = 2024, month = 3, day = 15\<rparr> =
      \<lparr>year = 2024, month = 3, day = 11\<rparr>"
    and k2: "week_start_march_2024 \<lparr>year = 2024, month = 3, day = 19\<rparr> =
      \<lparr>year = 2024, month = 3, day = 18\<rparr>"
    by (simp_all add: week_start_march_2024_def)
  note f1 = save_schedule_to_cache_frame
    [where db = demo_table and ws = week_start_march_2024 and g = "''G1''"
       and d = "\<lparr>year = 2024, month = 3, day = 15\<rparr>" and x = "''[1]''" and now = 500
       and dflt = None, OF p, THEN conjunct1, rule_format,
     of "[\<lparr>id' = 1, group_id = ''G1'', week_start = \<lparr>year = 2024, month = 3, day = 4\<rparr>,
           data = ''[]'', updated_at = Some 100\<rparr>]"
        "\<lparr>id' = 2, group_id = ''G1'', week_start = \<lparr>year = 2024, month = 3, day = 11\<rparr>,
           data = ''[]'', updated_at = Some 200\<rparr>"
        "[\<lparr>id' = 3, group_id = ''G2'', week_start = \<lparr>year = 2024, month = 3, day = 11\<rparr>,
           data = ''[]'', updated_at = Some 300\<rparr>]"]
  note f2 = save_schedule_to_cache_frame
    [where db = demo_table and ws = week_start_march_2024 and g = "''G2''"
       and d = "\<lparr>year = 2024, month = 3, day = 19\<rparr>" and x = "''[2]''" and now = 500
       and dflt = None, OF p, THEN conjunct2, rule_format]
  have e1: "save_schedule_to_cache week_start_march_2024 500 None demo_table ''G1''
     \<lparr>year = 2024, month = 3, day = 15\<rparr> ''[1]'' =
   \<lparr>cache_rows =
      [\<lparr>id' = 1, group_id = ''G1'', week_start = \<lparr>year = 2024, month = 3, day = 4\<rparr>,
        data = ''[]'', updated_at = Some 100\<rparr>,
       \<lparr>id' = 2, group_id = ''G1'', week_start = \<lparr>year = 2024, month = 3, day = 11\<rparr>,
        data = ''[1]'', updated_at = Some 500\<rparr>,
       \<lparr>id' = 3, group_id = ''G2'', week_start = \<lparr>year = 2024, month = 3, day = 11\<rparr>,
        data = ''[]'', updated_at = Some 300\<rparr>],
    next_id = 4\<rparr>"
    using f1 by (simp add: k1 demo_table_def)
  have e2: "save_schedule_to_cache week_start_march_2024 500 None demo_table ''G2''
     \<lparr>year = 2024, month = 3, day = 19\<rparr> ''[2]'' =
   \<lparr>cache_rows = cache_rows demo_table @
      [\<lparr>id' = 4, group_id = ''G2'', week_start = \<lparr>year = 2024, month = 3, day = 18\<rparr>,
        data = ''[2]'', updated_at = None\<rparr>],
    next_id = 5\<rparr>"
    using f2 by (simp add: k2 demo_table_def)
  from p e1 e2 show ?thesis by simp
qed

end
